theory Spec2Isabelle
  imports
    Main
    "HOL-Library.Char_ord"
    "HOL-Library.List_Lexorder"
    "HOL-Library.Multiset"
    "HOL-Library.Sublist"
begin

section \<open>Go strings and the formatting primitives used by the error types\<close>

text \<open>
  A Go \<^verbatim>\<open>string\<close> is a sequence of bytes, modelled as \<^typ>\<open>string\<close> (a list of
  \<^typ>\<open>char\<close>). Go compares strings bytewise and lexicographically, a proper prefix being
  smaller; this is the order of \<^theory_text>\<open>List_Lexorder\<close> over the byte order of
  \<^theory_text>\<open>Char_ord\<close>.
\<close>

abbreviation newline :: char where
  "newline \<equiv> CHR 0x0A"

abbreviation quote :: char where
  "quote \<equiv> CHR 0x27"

text \<open>The decimal digit of a value below ten.\<close>

definition digit :: "nat \<Rightarrow> char" where
  "digit d = ''0123456789'' ! d"

text \<open>The verb \<^verbatim>\<open>%d\<close> of \<^verbatim>\<open>fmt.Sprintf\<close> on a non-negative \<^verbatim>\<open>int\<close>
  (here always a \<^verbatim>\<open>len\<close>): the decimal numeral without leading zeros.\<close>

function itoa :: "nat \<Rightarrow> string" where
  "itoa n = (if n < 10 then [digit n] else itoa (n div 10) @ [digit (n mod 10)])"
  by pat_completeness auto
termination
  by (relation "measure (\<lambda>n. n)") auto

declare itoa.simps [simp del]

text \<open>Reading a decimal numeral back, to check \<open>itoa\<close> against (see \<open>atoi_itoa\<close>).\<close>

definition digit_value :: "char \<Rightarrow> nat" where
  "digit_value c = of_char c - 48"

definition atoi :: "string \<Rightarrow> nat" where
  "atoi s = foldl (\<lambda>a c. 10 * a + digit_value c) 0 s"

text \<open>\<^verbatim>\<open>strings.Join(elems, sep)\<close>.\<close>

fun Join :: "string list \<Rightarrow> string \<Rightarrow> string" where
  "Join [] sep = []"
| "Join [x] sep = x"
| "Join (x # y # ys) sep = x @ sep @ Join (y # ys) sep"

text \<open>\<^verbatim>\<open>sort.Strings(x)\<close> puts a slice of strings into increasing order. Strings that
  compare equal are identical, so the result is the one sorted arrangement of the elements,
  whichever algorithm the library runs (see \<open>sort_Strings_unique\<close> below).\<close>

definition sort_Strings :: "string list \<Rightarrow> string list" where
  "sort_Strings x = sort x"

text \<open>A \<^verbatim>\<open>for i, x := range xs { body }\<close> loop over a slice, threading the state the
  body updates; \<open>i\<close> is the index of the element.\<close>

fun range_loop :: "(nat \<Rightarrow> 'a \<Rightarrow> 's \<Rightarrow> 's) \<Rightarrow> nat \<Rightarrow> 'a list \<Rightarrow> 's \<Rightarrow> 's" where
  "range_loop body i [] s = s"
| "range_loop body i (x # xs) s = range_loop body (Suc i) xs (body i x s)"

section \<open>error.go: the aggregated error\<close>

text \<open>
  \<^verbatim>\<open>type joinedError struct { Errors []string }\<close>

  Within this file a nil and an empty \<^verbatim>\<open>Errors\<close> slice behave alike (\<^verbatim>\<open>len\<close>,
  \<^verbatim>\<open>range\<close> and \<^verbatim>\<open>append\<close> do not tell them apart), so the field is a list.
\<close>

record joinedError =
  Errors :: "string list"

datatype panic = NilDereference | IndexOutOfRange

text \<open>\<^verbatim>\<open>fmt.Sprintf("* %s", err)\<close> for a string \<open>err\<close>.\<close>

definition bullet :: "string \<Rightarrow> string" where
  "bullet err = ''* '' @ err"

text \<open>The first loop of \<^verbatim>\<open>Error\<close>: \<^verbatim>\<open>points := make([]string, len(e.Errors))\<close>,
  then \<^verbatim>\<open>points[i] = fmt.Sprintf("* %s", err)\<close> for every index.\<close>

definition build_points :: "string list \<Rightarrow> string list" where
  "build_points es =
     range_loop (\<lambda>i err points. points[i := bullet err]) 0 es (replicate (length es) [])"

text \<open>\<^verbatim>\<open>func (e *joinedError) Error() string\<close> on the struct a non-nil receiver points to.\<close>

definition joinedError_Error :: "joinedError \<Rightarrow> string" where
  "joinedError_Error e =
     (let points = build_points (Errors e);
          points = sort_Strings points
      in itoa (length (Errors e)) @ '' error(s) decoding:'' @ [newline, newline]
           @ Join points [newline])"

text \<open>The method on the pointer receiver: a nil receiver panics at \<^verbatim>\<open>e.Errors\<close>.\<close>

fun joinedError_Error_ptr :: "joinedError option \<Rightarrow> panic + string" where
  "joinedError_Error_ptr None = Inl NilDereference"
| "joinedError_Error_ptr (Some e) = Inr (joinedError_Error e)"

section \<open>errors.go: the per-field error types and the \<^verbatim>\<open>error\<close> interface\<close>

text \<open>
  The dynamic types an \<^verbatim>\<open>error\<close> interface value holds here: the primitive error
  of \<^verbatim>\<open>errors.New\<close> (any error outside this package is represented by it, through its
  message), and pointers to the structs of this package. A pointer is an \<open>option\<close>,
  \<open>None\<close> being nil; an interface value is an \<open>error option\<close>, \<open>None\<close> being the nil
  interface.

  \<^verbatim>\<open>type DecodeError struct { name string; err error }\<close>

  \<^verbatim>\<open>type ErrCannotDecode struct { Name string; Err error }\<close>
\<close>

datatype error =
    errorString string
  | joinedErrorPtr "joinedError option"
  | DecodeErrorPtr "DecodeError option"
  | ErrCannotDecodePtr "ErrCannotDecode option"
and DecodeError = DecodeError (DecodeError_name: string) (DecodeError_err: "error option")
and ErrCannotDecode = ErrCannotDecode (ErrCannotDecode_Name: string) (ErrCannotDecode_Err: "error option")

text \<open>
  The \<^verbatim>\<open>Error()\<close> methods, and \<open>fmt_s\<close>, the verb \<^verbatim>\<open>%s\<close> of \<^verbatim>\<open>fmt.Sprintf\<close> on an
  \<^verbatim>\<open>error\<close> operand: the nil interface prints as \<^verbatim>\<open>%!s(<nil>)\<close>; otherwise the
  operand's \<^verbatim>\<open>Error()\<close> is called, and when that panics on a nil pointer receiver
  \<^verbatim>\<open>fmt\<close> recovers and prints \<^verbatim>\<open><nil>\<close>.

  \<^verbatim>\<open>func (e *DecodeError) Error() string { return fmt.Sprintf("'%s' %s", e.name, e.err) }\<close>

  \<^verbatim>\<open>func (e *ErrCannotDecode) Error() string { return fmt.Sprintf("'%s': %s", e.Name, e.Err) }\<close>
\<close>

fun Error :: "error \<Rightarrow> panic + string"
and DecodeError_Error :: "DecodeError option \<Rightarrow> panic + string"
and ErrCannotDecode_Error :: "ErrCannotDecode option \<Rightarrow> panic + string"
and fmt_s :: "error option \<Rightarrow> string"
where
  "Error (errorString s) = Inr s"
| "Error (joinedErrorPtr p) = joinedError_Error_ptr p"
| "Error (DecodeErrorPtr p) = DecodeError_Error p"
| "Error (ErrCannotDecodePtr p) = ErrCannotDecode_Error p"
| "DecodeError_Error None = Inl NilDereference"
| "DecodeError_Error (Some (DecodeError n e)) =
     Inr ([quote] @ n @ [quote] @ '' '' @ fmt_s e)"
| "ErrCannotDecode_Error None = Inl NilDereference"
| "ErrCannotDecode_Error (Some (ErrCannotDecode n e)) =
     Inr ([quote] @ n @ [quote] @ '': '' @ fmt_s e)"
| "fmt_s None = ''%!s(<nil>)''"
| "fmt_s (Some e) = (case Error e of Inr m \<Rightarrow> m | Inl p \<Rightarrow> ''<nil>'')"

text \<open>\<^verbatim>\<open>func newDecodeError(name string, err error) *DecodeError\<close>\<close>

definition newDecodeError :: "string \<Rightarrow> error option \<Rightarrow> DecodeError option" where
  "newDecodeError n e = Some (DecodeError n e)"

text \<open>
  \<^verbatim>\<open>func (e *joinedError) Unwrap() []error\<close>: nil for a nil receiver; otherwise
  \<^verbatim>\<open>result := make([]error, len(e.Errors))\<close> (every entry the nil interface) and
  \<^verbatim>\<open>result[i] = errors.New(e)\<close> for every index. The returned slice is an \<open>option\<close>,
  \<open>None\<close> being the nil slice, which Go tells apart from an empty one.
\<close>

fun Unwrap :: "joinedError option \<Rightarrow> error option list option" where
  "Unwrap None = None"
| "Unwrap (Some e) =
     Some (range_loop (\<lambda>i s result. result[i := Some (errorString s)]) 0 (Errors e)
             (replicate (length (Errors e)) None))"

text \<open>
  \<^verbatim>\<open>func appendErrors(errors []string, err error) []string\<close>: a type switch on \<open>err\<close>.
  The case \<^verbatim>\<open>*joinedError\<close> reads \<^verbatim>\<open>e.Errors\<close>, which panics for a nil pointer;
  the default case calls \<^verbatim>\<open>e.Error()\<close>, which panics for the nil interface and
  wherever the method does.
\<close>

fun appendErrors :: "string list \<Rightarrow> error option \<Rightarrow> panic + string list" where
  "appendErrors errors None = Inl NilDereference"
| "appendErrors errors (Some (joinedErrorPtr None)) = Inl NilDereference"
| "appendErrors errors (Some (joinedErrorPtr (Some e))) = Inr (errors @ Errors e)"
| "appendErrors errors (Some e) =
     (case Error e of Inl p \<Rightarrow> Inl p | Inr m \<Rightarrow> Inr (errors @ [m]))"

text \<open>Whether the dynamic type of an error is \<^verbatim>\<open>*joinedError\<close>, the first case of the
  type switch.\<close>

fun is_joinedError :: "error \<Rightarrow> bool" where
  "is_joinedError (joinedErrorPtr p) = True"
| "is_joinedError (errorString s) = False"
| "is_joinedError (DecodeErrorPtr p) = False"
| "is_joinedError (ErrCannotDecodePtr p) = False"

section \<open>The aggregated error on the heap\<close>

text \<open>
  \<^verbatim>\<open>Error\<close> fills and sorts a slice, and sorting a slice writes to its backing array. To
  state what the method leaves untouched, the receiver and the slices are placed in a store:
  a \<^verbatim>\<open>[]string\<close> value is a slice header (the backing array's address, the offset of
  the first element in it, the length; the capacity plays no part in \<^verbatim>\<open>Error\<close>), a
  \<^verbatim>\<open>*joinedError\<close> is an address or nil, and the heap maps the address of a
  \<^verbatim>\<open>joinedError\<close> struct to its one field and the address of a backing array to its
  elements. \<open>next_addr\<close> is the allocator's next unused address.
\<close>

type_synonym addr = nat

record slice =
  s_array :: addr
  s_off :: nat
  s_len :: nat

record heap =
  structs :: "addr \<Rightarrow> slice option"
  arrays :: "addr \<Rightarrow> string list"
  next_addr :: addr

text \<open>\<^verbatim>\<open>make([]string, n)\<close>: a new backing array of \<open>n\<close> empty strings.\<close>

definition make_strings :: "nat \<Rightarrow> heap \<Rightarrow> slice \<times> heap" where
  "make_strings n h =
     (\<lparr>s_array = next_addr h, s_off = 0, s_len = n\<rparr>,
      h\<lparr>arrays := (arrays h)(next_addr h := replicate n []), next_addr := Suc (next_addr h)\<rparr>)"

text \<open>Reading \<^verbatim>\<open>s[i]\<close> and the assignment \<^verbatim>\<open>s[i] = v\<close>, with Go's bounds check.\<close>

definition index_slice :: "heap \<Rightarrow> slice \<Rightarrow> nat \<Rightarrow> panic + string" where
  "index_slice h s i =
     (if i < s_len s \<and> s_off s + i < length (arrays h (s_array s))
      then Inr (arrays h (s_array s) ! (s_off s + i)) else Inl IndexOutOfRange)"

definition assign_slice :: "heap \<Rightarrow> slice \<Rightarrow> nat \<Rightarrow> string \<Rightarrow> panic + heap" where
  "assign_slice h s i v =
     (if i < s_len s \<and> s_off s + i < length (arrays h (s_array s))
      then Inr (h\<lparr>arrays := (arrays h)(s_array s := (arrays h (s_array s))[s_off s + i := v])\<rparr>)
      else Inl IndexOutOfRange)"

text \<open>The elements a slice header denotes in a heap.\<close>

definition contents :: "heap \<Rightarrow> slice \<Rightarrow> string list" where
  "contents h s = take (s_len s) (drop (s_off s) (arrays h (s_array s)))"

text \<open>\<^verbatim>\<open>sort.Strings(s)\<close> in place: the elements of \<open>s\<close> within its backing array are
  rearranged, the rest of the array stays.\<close>

definition sort_Strings_heap :: "slice \<Rightarrow> heap \<Rightarrow> heap" where
  "sort_Strings_heap s h =
     (let a = arrays h (s_array s)
      in h\<lparr>arrays := (arrays h)(s_array s :=
             take (s_off s) a @ sort_Strings (take (s_len s) (drop (s_off s) a))
               @ drop (s_off s + s_len s) a)\<rparr>)"

text \<open>The loop \<^verbatim>\<open>for i, err := range e.Errors { points[i] = fmt.Sprintf("* %s", err) }\<close>:
  the slice header \<open>es\<close> is read once, then element \<open>i\<close> is read from the heap as it is at
  that iteration; \<open>k\<close> counts the iterations that remain.\<close>

primrec Error_loop :: "nat \<Rightarrow> nat \<Rightarrow> slice \<Rightarrow> slice \<Rightarrow> heap \<Rightarrow> panic + heap" where
  "Error_loop 0 i es points h = Inr h"
| "Error_loop (Suc k) i es points h =
     (case index_slice h es i of
        Inl p \<Rightarrow> Inl p
      | Inr x \<Rightarrow>
          (case assign_slice h points i (bullet x) of
             Inl p \<Rightarrow> Inl p
           | Inr h' \<Rightarrow> Error_loop k (Suc i) es points h'))"

text \<open>\<^verbatim>\<open>func (e *joinedError) Error() string\<close> with the heap it runs in: the result is
  the string and the heap afterwards, or the panic of dereferencing a pointer that holds no
  struct.\<close>

definition joinedError_Error_heap :: "addr option \<Rightarrow> heap \<Rightarrow> panic + (string \<times> heap)" where
  "joinedError_Error_heap e h =
     (case e of
        None \<Rightarrow> Inl NilDereference
      | Some a \<Rightarrow>
          (case structs h a of
             None \<Rightarrow> Inl NilDereference
           | Some es \<Rightarrow>
               (let (points, h1) = make_strings (s_len es) h
                in case Error_loop (s_len es) 0 es points h1 of
                     Inl p \<Rightarrow> Inl p
                   | Inr h2 \<Rightarrow>
                       (let h3 = sort_Strings_heap points h2
                        in Inr (itoa (s_len es) @ '' error(s) decoding:'' @ [newline, newline]
                                  @ Join (contents h3 points) [newline], h3)))))"

text \<open>The value a \<^verbatim>\<open>*joinedError\<close> denotes in a heap: what the value-level functions
  above take as their receiver.\<close>

definition load :: "heap \<Rightarrow> addr option \<Rightarrow> joinedError option" where
  "load h e =
     (case e of
        None \<Rightarrow> None
      | Some a \<Rightarrow>
          (case structs h a of None \<Rightarrow> None | Some es \<Rightarrow> Some \<lparr>Errors = contents h es\<rparr>))"

text \<open>What Go guarantees of a slice that exists: its backing array has been allocated and
  holds the slice's elements.\<close>

definition valid_slice :: "heap \<Rightarrow> slice \<Rightarrow> bool" where
  "valid_slice h s \<longleftrightarrow>
     s_array s < next_addr h \<and> s_off s + s_len s \<le> length (arrays h (s_array s))"

section \<open>Hooks and their combinators\<close>

text \<open>
  Modelled from the spec: the hook data model and the two combinators, AND-compose
  (\<^verbatim>\<open>ComposeDecodeHookFunc\<close>) and OR-compose (\<^verbatim>\<open>OrComposeDecodeHookFunc\<close>). Their code and
  that of \<^verbatim>\<open>DecodeHookExec\<close> are not among the sources; only their tests are. The
  definitions follow sections 3 and 4.2 of the specification.

  A source descriptor is a category tag and the dynamic value; a target descriptor is a
  category tag and a zero-valued placeholder of the destination's shape; a hook maps the two
  to a value or an error. Categories and values are left as type parameters.
\<close>

record ('k, 'v) SourceDescriptor =
  src_category :: 'k
  src_value :: 'v

record ('k, 'v) TargetDescriptor =
  tgt_category :: 'k
  tgt_placeholder :: 'v

type_synonym ('k, 'v) Hook =
  "('k, 'v) SourceDescriptor \<Rightarrow> ('k, 'v) TargetDescriptor \<Rightarrow> error + 'v"

text \<open>
  Modelled from the spec: AND-compose is a left fold. Hook \<open>i + 1\<close> receives the output of
  hook \<open>i\<close> as its source, with the category recomputed from that output by \<open>classify\<close>;
  the target descriptor is the same for the whole chain; the first failing hook ends the
  chain with its error. The first component of the result lists the positions of the hooks
  that were invoked, in the order of invocation.
\<close>

fun AndCompose_from ::
  "nat \<Rightarrow> ('v \<Rightarrow> 'k) \<Rightarrow> ('k, 'v) Hook list \<Rightarrow> ('k, 'v) SourceDescriptor
     \<Rightarrow> ('k, 'v) TargetDescriptor \<Rightarrow> nat list \<times> (error + 'v)" where
  "AndCompose_from i classify [] s t = ([], Inr (src_value s))"
| "AndCompose_from i classify (h # hs) s t =
     (case h s t of
        Inl e \<Rightarrow> ([i], Inl e)
      | Inr v \<Rightarrow>
          (let (invoked, r) =
             AndCompose_from (Suc i) classify hs \<lparr>src_category = classify v, src_value = v\<rparr> t
           in (i # invoked, r)))"

text \<open>Modelled from the spec: AND-compose of the hooks \<open>hs\<close>, positions counted from 0.\<close>

definition AndCompose ::
  "('v \<Rightarrow> 'k) \<Rightarrow> ('k, 'v) Hook list \<Rightarrow> ('k, 'v) SourceDescriptor
     \<Rightarrow> ('k, 'v) TargetDescriptor \<Rightarrow> nat list \<times> (error + 'v)" where
  "AndCompose classify hs = AndCompose_from 0 classify hs"

text \<open>
  Modelled from the spec: the aggregate OR-compose returns when every hook has failed. It
  holds every hook's message, each terminated by a line break, in declaration order, and its
  own message is these in sequence (the test \<^verbatim>\<open>TestOrComposeDecodeHookFunc_err\<close> expects
  \<^verbatim>\<open>"f1 error\nf2 error\n"\<close>); it is represented by the primitive error with that message.
\<close>

definition AggregatedError :: "string list \<Rightarrow> error" where
  "AggregatedError msgs = errorString (concat msgs)"

text \<open>
  Modelled from the spec: OR-compose tries the hooks in declared order and returns the first
  success; a failing hook contributes its message, obtained from the error's \<^verbatim>\<open>Error()\<close>
  (whose panic, if any, ends the call).
\<close>

fun OrCompose_from ::
  "string list \<Rightarrow> ('k, 'v) Hook list \<Rightarrow> ('k, 'v) SourceDescriptor
     \<Rightarrow> ('k, 'v) TargetDescriptor \<Rightarrow> panic + (error + 'v)" where
  "OrCompose_from msgs [] s t = Inr (Inl (AggregatedError msgs))"
| "OrCompose_from msgs (h # hs) s t =
     (case h s t of
        Inr v \<Rightarrow> Inr (Inr v)
      | Inl e \<Rightarrow>
          (case Error e of
             Inl p \<Rightarrow> Inl p
           | Inr m \<Rightarrow> OrCompose_from (msgs @ [m @ [newline]]) hs s t))"

text \<open>Modelled from the spec: OR-compose of the hooks \<open>hs\<close>, starting with no message
  collected.\<close>

definition OrCompose ::
  "('k, 'v) Hook list \<Rightarrow> ('k, 'v) SourceDescriptor \<Rightarrow> ('k, 'v) TargetDescriptor
     \<Rightarrow> panic + (error + 'v)" where
  "OrCompose hs = OrCompose_from [] hs"

text \<open>A hook fails on an input with an error whose message is \<open>m\<close>.\<close>

definition fails_with ::
  "('k, 'v) SourceDescriptor \<Rightarrow> ('k, 'v) TargetDescriptor \<Rightarrow> ('k, 'v) Hook \<Rightarrow> string \<Rightarrow> bool"
  where
  "fails_with s t h m = (case h s t of Inr v \<Rightarrow> False | Inl e \<Rightarrow> Error e = Inr m)"

section \<open>Properties of the formatting\<close>

lemma digit_value_digit: "d < 10 \<Longrightarrow> digit_value (digit d) = d"
proof -
  assume "d < 10"
  then have "d = 0 \<or> d = 1 \<or> d = 2 \<or> d = 3 \<or> d = 4 \<or> d = 5 \<or> d = 6 \<or> d = 7
    \<or> d = 8 \<or> d = 9"
    by arith
  then show ?thesis
    by (elim disjE) (simp_all add: digit_def digit_value_def)
qed

text \<open>\<open>itoa\<close> writes the decimal numeral of its argument.\<close>

lemma atoi_itoa: "atoi (itoa n) = n"
proof (induction n rule: itoa.induct)
  case (1 n)
  show ?case
  proof (cases "n < 10")
    case True
    then show ?thesis
      by (simp add: itoa.simps [of n] atoi_def digit_value_digit)
  next
    case False
    with 1 have "atoi (itoa (n div 10)) = n div 10" by simp
    with False show ?thesis
      by (simp add: itoa.simps [of n] atoi_def digit_value_digit)
  qed
qed

lemma range_loop_update:
  "i + length es \<le> length ps \<Longrightarrow>
   range_loop (\<lambda>i x ps. ps[i := f x]) i es ps = take i ps @ map f es @ drop (i + length es) ps"
proof (induction es arbitrary: i ps)
  case Nil
  then show ?case by simp
next
  case (Cons x xs)
  have "take (Suc i) (ps[i := f x]) = take i ps @ [f x]"
    using Cons.prems by (simp add: take_Suc_conv_app_nth)
  with Cons show ?case by simp
qed

lemma build_points_map: "build_points es = map bullet es"
  unfolding build_points_def by (simp add: range_loop_update)

lemma bullet_less_eq: "bullet x \<le> bullet y \<longleftrightarrow> x \<le> y"
  by (simp add: bullet_def)

lemma sorted_map_bullet: "sorted (map bullet xs) = sorted xs"
  by (induction xs) (auto simp: bullet_less_eq)

lemma sort_map_bullet: "sort (map bullet xs) = map bullet (sort xs)"
proof (rule properties_for_sort)
  show "mset (map bullet (sort xs)) = mset (map bullet xs)" by simp
  show "sorted (map bullet (sort xs))" by (simp add: sorted_map_bullet)
qed

lemma sort_Strings_unique:
  "sorted ys \<Longrightarrow> mset ys = mset xs \<Longrightarrow> sort_Strings xs = ys"
  unfolding sort_Strings_def by (rule properties_for_sort)

text \<open>
  Claim C1. The report of an aggregated error is the number of messages in decimal, the
  text \<^verbatim>\<open> error(s) decoding:\<close>, an empty line, and the messages as lines that start with
  \<^verbatim>\<open>* \<close>, joined by line breaks; there is one such line for every message, the lines are
  in increasing lexical order, and two aggregates that hold the same messages in different
  orders give the same report.
\<close>

theorem joinedError_Error_report:
  "joinedError_Error e =
     itoa (length (Errors e)) @ '' error(s) decoding:'' @ [newline, newline]
       @ Join (map bullet (sort (Errors e))) [newline]
   \<and> sorted (map bullet (sort (Errors e)))
   \<and> (mset (Errors e') = mset (Errors e) \<longrightarrow> joinedError_Error e' = joinedError_Error e)"
proof (intro conjI impI)
  show fmt: "joinedError_Error e =
     itoa (length (Errors e)) @ '' error(s) decoding:'' @ [newline, newline]
       @ Join (map bullet (sort (Errors e))) [newline]" for e
    by (simp add: joinedError_Error_def build_points_map sort_Strings_def sort_map_bullet)
  show "sorted (map bullet (sort (Errors e)))"
    by (simp add: sorted_map_bullet)
  assume m: "mset (Errors e') = mset (Errors e)"
  have "sort (Errors e') = sort (Errors e)"
    by (rule properties_for_sort) (simp_all add: m)
  moreover have "length (Errors e') = length (Errors e)"
    using m by (metis size_mset)
  ultimately show "joinedError_Error e' = joinedError_Error e"
    by (simp add: fmt)
qed

theorem joinedError_Error_report_witness:
  "mset (Errors \<lparr>Errors = [''b'', ''a'']\<rparr>) = mset (Errors \<lparr>Errors = [''a'', ''b'']\<rparr>)
   \<and> joinedError_Error \<lparr>Errors = [''b'', ''a'']\<rparr> =
       ''2 error(s) decoding:'' @ [newline, newline] @ ''* a'' @ [newline] @ ''* b''
   \<and> joinedError_Error \<lparr>Errors = [''a'', ''b'']\<rparr> = joinedError_Error \<lparr>Errors = [''b'', ''a'']\<rparr>"
  using joinedError_Error_report [of "\<lparr>Errors = [''b'', ''a'']\<rparr>" "\<lparr>Errors = [''a'', ''b'']\<rparr>"]
  by (simp add: itoa.simps digit_def bullet_def)

section \<open>Properties of appending and unwrapping\<close>

lemma appendErrors_default:
  "\<not> is_joinedError x \<Longrightarrow>
   appendErrors errors (Some x) = (case Error x of Inl p \<Rightarrow> Inl p | Inr m \<Rightarrow> Inr (errors @ [m]))"
  by (cases x) simp_all

lemma joinedError_Error_longer:
  "Errors e = [x] \<Longrightarrow> length x < length (joinedError_Error e)"
  by (simp add: joinedError_Error_def build_points_map sort_Strings_def bullet_def)

text \<open>
  Claim C3. Appending an aggregate (a \<^verbatim>\<open>*joinedError\<close> that is not nil) to a message list
  gives the list followed by the aggregate's messages in their stored order, which is never
  the list followed by the aggregate's report as one entry. Appending an error of any other
  dynamic type whose \<^verbatim>\<open>Error()\<close> returns the message \<open>m\<close> gives the list followed by
  the one entry \<open>m\<close>. Whenever \<^verbatim>\<open>appendErrors\<close> returns, the list it was given is a
  prefix of the result, unchanged and in the same order.
\<close>

theorem appendErrors_splice:
  "appendErrors errors (Some (joinedErrorPtr (Some e))) = Inr (errors @ Errors e)
   \<and> appendErrors errors (Some (joinedErrorPtr (Some e))) \<noteq> Inr (errors @ [joinedError_Error e])
   \<and> (\<not> is_joinedError x \<and> Error x = Inr m \<longrightarrow>
        appendErrors errors (Some x) = Inr (errors @ [m]))
   \<and> (appendErrors errors y = Inr r \<longrightarrow> take (length errors) r = errors)"
proof (intro conjI impI)
  show "appendErrors errors (Some (joinedErrorPtr (Some e))) = Inr (errors @ Errors e)"
    by simp
  show "appendErrors errors (Some (joinedErrorPtr (Some e))) \<noteq> Inr (errors @ [joinedError_Error e])"
    using joinedError_Error_longer [of e "joinedError_Error e"] by auto
  show "appendErrors errors (Some x) = Inr (errors @ [m])"
    if "\<not> is_joinedError x \<and> Error x = Inr m"
    using that by (simp add: appendErrors_default)
  show "take (length errors) r = errors" if "appendErrors errors y = Inr r"
    using that by (induction errors y rule: appendErrors.induct) (auto split: sum.splits)
qed

theorem appendErrors_splice_witness:
  "\<not> is_joinedError (errorString ''c'') \<and> Error (errorString ''c'') = Inr ''c''
   \<and> appendErrors [''a''] (Some (errorString ''c'')) = Inr [''a'', ''c'']
   \<and> appendErrors [''a''] (Some (joinedErrorPtr (Some \<lparr>Errors = [''z'', ''b'']\<rparr>)))
       = Inr [''a'', ''z'', ''b'']
   \<and> take (length [''a'']) [''a'', ''z'', ''b''] = [''a'']"
  using appendErrors_splice [of "[''a'']" "\<lparr>Errors = [''z'', ''b'']\<rparr>" "errorString ''c''" "''c''"
      "Some (joinedErrorPtr (Some \<lparr>Errors = [''z'', ''b'']\<rparr>))" "[''a'', ''z'', ''b'']"]
  by simp

text \<open>
  Claim C4. For a receiver that is not nil and holds \<open>n\<close> messages, \<^verbatim>\<open>Unwrap\<close> returns
  \<open>n\<close> errors, each the primitive error of \<^verbatim>\<open>errors.New\<close> on the message at the same
  index, so their messages are the stored strings in the stored order (not sorted).
\<close>

theorem Unwrap_primitive_errors:
  "Unwrap (Some e) = Some (map Some (map errorString (Errors e)))
   \<and> length (map errorString (Errors e)) = length (Errors e)
   \<and> map Error (map errorString (Errors e)) = map Inr (Errors e)"
  by (simp add: range_loop_update comp_def)

text \<open>
  Claim C10. \<^verbatim>\<open>Unwrap\<close> on the nil pointer returns the nil slice and does not panic; on
  any other receiver it returns a slice that is not nil and is as long as the stored list,
  the empty slice for the empty list.
\<close>

theorem Unwrap_nil_and_length:
  "Unwrap None = None
   \<and> (\<exists>r. Unwrap (Some e) = Some r \<and> length r = length (Errors e))
   \<and> Unwrap (Some \<lparr>Errors = []\<rparr>) = Some []"
  by (simp add: range_loop_update)

section \<open>Properties of the per-field errors\<close>

text \<open>
  Claim C8. A \<^verbatim>\<open>DecodeError\<close> with field name \<open>n\<close> and an inner error whose message is
  \<open>m\<close> formats as \<^verbatim>\<open>'n' m\<close>, and an \<^verbatim>\<open>ErrCannotDecode\<close> as \<^verbatim>\<open>'n': m\<close>. Whatever the
  inner error is (also the nil interface), formatting returns a message and the quoted
  field name occurs in it.
\<close>

theorem DecodeError_Error_names_field:
  "(Error e = Inr m \<longrightarrow>
      Error (DecodeErrorPtr (newDecodeError n (Some e)))
        = Inr ([quote] @ n @ [quote] @ '' '' @ m)
    \<and> Error (ErrCannotDecodePtr (Some (ErrCannotDecode n (Some e))))
        = Inr ([quote] @ n @ [quote] @ '': '' @ m))
   \<and> (\<exists>msg. Error (DecodeErrorPtr (newDecodeError n ie)) = Inr msg
         \<and> sublist ([quote] @ n @ [quote]) msg)
   \<and> (\<exists>msg. Error (ErrCannotDecodePtr (Some (ErrCannotDecode n ie))) = Inr msg
         \<and> sublist ([quote] @ n @ [quote]) msg)"
proof (intro conjI impI)
  have pre: "sublist ([quote] @ n @ [quote]) ([quote] @ n @ [quote] @ rest)" for rest
    using sublist_appendI [of "[quote] @ n @ [quote]" "[]" rest] by simp
  show "\<exists>msg. Error (DecodeErrorPtr (newDecodeError n ie)) = Inr msg
         \<and> sublist ([quote] @ n @ [quote]) msg"
    using pre by (simp add: newDecodeError_def)
  show "\<exists>msg. Error (ErrCannotDecodePtr (Some (ErrCannotDecode n ie))) = Inr msg
         \<and> sublist ([quote] @ n @ [quote]) msg"
    using pre by simp
qed (simp_all add: newDecodeError_def)

theorem DecodeError_Error_names_field_witness:
  "Error (errorString ''bad'') = Inr ''bad''
   \<and> Error (DecodeErrorPtr (newDecodeError ''port'' (Some (errorString ''bad''))))
       = Inr ([quote] @ ''port'' @ [quote] @ '' bad'')
   \<and> Error (ErrCannotDecodePtr (Some (ErrCannotDecode ''port'' (Some (errorString ''bad'')))))
       = Inr ([quote] @ ''port'' @ [quote] @ '': bad'')"
  using DecodeError_Error_names_field [of "errorString ''bad''" "''bad''" "''port''" None]
  by simp

section \<open>The frame of formatting\<close>

lemma length_contents:
  "s_off s + s_len s \<le> length (arrays h (s_array s)) \<Longrightarrow> length (contents h s) = s_len s"
  by (simp add: contents_def)

text \<open>The loop, started at index \<open>i\<close> with \<open>k\<close> elements to go, leaves every array but
  that of \<open>points\<close> as it was and writes the bullets of the remaining elements.\<close>

lemma Error_loop_result:
  assumes "s_array points \<noteq> s_array es"
    and "s_off es + s_len es \<le> length (arrays h (s_array es))"
    and "s_off points = 0"
    and "length (arrays h (s_array points)) = s_len es"
    and "s_len points = s_len es"
    and "i + k = s_len es"
  shows "Error_loop k i es points h =
           Inr (h\<lparr>arrays := (arrays h)(s_array points :=
                  take i (arrays h (s_array points)) @ map bullet (drop i (contents h es)))\<rparr>)"
  using assms
proof (induction k arbitrary: i h)
  case 0
  then have "drop i (contents h es) = []"
    and "take i (arrays h (s_array points)) = arrays h (s_array points)"
    by (simp_all add: length_contents)
  then show ?case by simp
next
  case (Suc k)
  let ?P = "arrays h (s_array points)"
  let ?C = "contents h es"
  let ?v = "bullet (?C ! i)"
  let ?h1 = "h\<lparr>arrays := (arrays h)(s_array points := ?P[i := ?v])\<rparr>"
  have i: "i < s_len es" using Suc.prems by simp
  have ci: "arrays h (s_array es) ! (s_off es + i) = ?C ! i"
    using i Suc.prems(2) by (simp add: contents_def)
  have rd: "index_slice h es i = Inr (?C ! i)"
    using i Suc.prems(2) ci by (simp add: index_slice_def)
  have wr: "assign_slice h points i ?v = Inr ?h1"
    using i Suc.prems by (simp add: assign_slice_def)
  have c1: "contents ?h1 es = ?C"
    using Suc.prems(1) by (simp add: contents_def)
  have tk: "take (Suc i) (?P[i := ?v]) = take i ?P @ [?v]"
    using i Suc.prems by (simp add: take_Suc_conv_app_nth)
  have dr: "drop i ?C = ?C ! i # drop (Suc i) ?C"
    using i Suc.prems(2) by (simp add: Cons_nth_drop_Suc length_contents)
  have X: "take (Suc i) (arrays ?h1 (s_array points)) @ map bullet (drop (Suc i) (contents ?h1 es))
             = take i ?P @ map bullet (drop i ?C)"
    unfolding c1 by (simp add: tk dr)
  have Y: "?h1\<lparr>arrays := (arrays ?h1)(s_array points := Z)\<rparr>
             = h\<lparr>arrays := (arrays h)(s_array points := Z)\<rparr>" for Z
    by simp
  have "Error_loop k (Suc i) es points ?h1 =
          Inr (?h1\<lparr>arrays := (arrays ?h1)(s_array points :=
                  take (Suc i) (arrays ?h1 (s_array points))
                    @ map bullet (drop (Suc i) (contents ?h1 es)))\<rparr>)"
    using Suc.prems by (intro Suc.IH) simp_all
  then have ih: "Error_loop k (Suc i) es points ?h1 =
          Inr (h\<lparr>arrays := (arrays h)(s_array points := take i ?P @ map bullet (drop i ?C))\<rparr>)"
    unfolding X Y .
  show ?case
    by (simp only: Error_loop.simps rd wr ih sum.case)
qed

text \<open>
  Claim C9. Let a pointer refer to a \<^verbatim>\<open>joinedError\<close> whose \<^verbatim>\<open>Errors\<close> slice exists in
  the heap. Then \<^verbatim>\<open>Error\<close> returns (it does not panic), and afterwards the struct is as
  before, every backing array but the one newly allocated for the bullet list is as before,
  so the receiver denotes the same messages in the same order; the string returned is the
  report of those messages; and \<^verbatim>\<open>Unwrap\<close> on the receiver after the call yields the
  primitive errors of the messages in their original, unsorted order.
\<close>

theorem joinedError_Error_heap_frame:
  assumes "structs h a = Some es" and "valid_slice h es"
  shows "\<exists>s h'. joinedError_Error_heap (Some a) h = Inr (s, h')
           \<and> structs h' = structs h
           \<and> (\<forall>b. b \<noteq> next_addr h \<longrightarrow> arrays h' b = arrays h b)
           \<and> load h' (Some a) = load h (Some a)
           \<and> Some s = map_option joinedError_Error (load h (Some a))
           \<and> Unwrap (load h' (Some a)) = Some (map Some (map errorString (contents h es)))"
proof -
  let ?n = "s_len es"
  let ?na = "next_addr h"
  let ?points = "\<lparr>s_array = ?na, s_off = 0, s_len = ?n\<rparr>"
  let ?h1 = "h\<lparr>arrays := (arrays h)(?na := replicate ?n []), next_addr := Suc ?na\<rparr>"
  let ?C = "contents h es"
  have ne: "s_array es \<noteq> ?na" and ok: "s_off es + s_len es \<le> length (arrays h (s_array es))"
    using assms(2) by (simp_all add: valid_slice_def)
  have c1: "contents ?h1 es = ?C"
    using ne by (simp add: contents_def)
  have lenC: "length ?C = ?n" using ok by (rule length_contents)
  let ?h2 = "h\<lparr>next_addr := Suc ?na, arrays := (arrays h)(?na := map bullet ?C)\<rparr>"
  have loop: "Error_loop ?n 0 es ?points ?h1 = Inr ?h2"
    using Error_loop_result [of ?points es ?h1 0 ?n] ne ok c1 by simp
  let ?h3 = "sort_Strings_heap ?points ?h2"
  have s3: "structs ?h3 = structs h"
    by (simp add: sort_Strings_heap_def Let_def)
  have a3: "b \<noteq> ?na \<Longrightarrow> arrays ?h3 b = arrays h b" for b
    by (simp add: sort_Strings_heap_def Let_def)
  have p3: "contents ?h3 ?points = sort_Strings (map bullet ?C)"
    by (simp add: contents_def sort_Strings_heap_def Let_def lenC sort_Strings_def)
  have c3: "contents ?h3 es = ?C"
    using ne by (simp add: contents_def sort_Strings_heap_def Let_def)
  have run: "joinedError_Error_heap (Some a) h =
      Inr (itoa ?n @ '' error(s) decoding:'' @ [newline, newline]
             @ Join (sort_Strings (map bullet ?C)) [newline], ?h3)"
    unfolding joinedError_Error_heap_def make_strings_def
    by (simp add: assms(1) loop p3 Let_def del: Error_loop.simps)
  have pure: "joinedError_Error \<lparr>Errors = ?C\<rparr> =
      itoa ?n @ '' error(s) decoding:'' @ [newline, newline]
             @ Join (sort_Strings (map bullet ?C)) [newline]"
    by (simp add: joinedError_Error_def build_points_map lenC)
  have ld: "load ?h3 (Some a) = load h (Some a)"
    by (simp add: load_def s3 assms(1) c3)
  have ld0: "load h (Some a) = Some \<lparr>Errors = ?C\<rparr>"
    by (simp add: load_def assms(1))
  have uw: "Unwrap (load ?h3 (Some a)) = Some (map Some (map errorString ?C))"
    unfolding ld ld0 by (simp add: range_loop_update comp_def)
  have msg: "Some (itoa ?n @ '' error(s) decoding:'' @ [newline, newline]
             @ Join (sort_Strings (map bullet ?C)) [newline])
         = map_option joinedError_Error (load h (Some a))"
    unfolding ld0 by (simp add: pure)
  from run s3 a3 ld msg uw show ?thesis
    by blast
qed

theorem joinedError_Error_heap_frame_witness:
  "structs \<lparr>structs = (\<lambda>a. None)(1 := Some \<lparr>s_array = 2, s_off = 0, s_len = 2\<rparr>),
            arrays = (\<lambda>a. [])(2 := [''b'', ''a'']), next_addr = 3\<rparr> 1
     = Some \<lparr>s_array = 2, s_off = 0, s_len = 2\<rparr>
   \<and> valid_slice \<lparr>structs = (\<lambda>a. None)(1 := Some \<lparr>s_array = 2, s_off = 0, s_len = 2\<rparr>),
            arrays = (\<lambda>a. [])(2 := [''b'', ''a'']), next_addr = 3\<rparr>
        \<lparr>s_array = 2, s_off = 0, s_len = 2\<rparr>
   \<and> (\<exists>s h'. joinedError_Error_heap (Some 1)
                 \<lparr>structs = (\<lambda>a. None)(1 := Some \<lparr>s_array = 2, s_off = 0, s_len = 2\<rparr>),
                  arrays = (\<lambda>a. [])(2 := [''b'', ''a'']), next_addr = 3\<rparr> = Inr (s, h')
         \<and> arrays h' 2 = [''b'', ''a'']
         \<and> Unwrap (load h' (Some 1)) = Some [Some (errorString ''b''), Some (errorString ''a'')])"
proof -
  let ?es = "\<lparr>s_array = 2, s_off = 0, s_len = 2\<rparr>"
  let ?h = "\<lparr>structs = (\<lambda>a. None)(1 := Some ?es),
            arrays = (\<lambda>a. [])(2 := [''b'', ''a'']), next_addr = 3\<rparr>"
  have h1: "structs ?h 1 = Some ?es" by simp
  have h2: "valid_slice ?h ?es" by (simp add: valid_slice_def)
  have c: "contents ?h ?es = [''b'', ''a'']" by (simp add: contents_def)
  obtain s h' where r: "joinedError_Error_heap (Some 1) ?h = Inr (s, h')"
    and fr: "\<forall>b. b \<noteq> next_addr ?h \<longrightarrow> arrays h' b = arrays ?h b"
    and uw: "Unwrap (load h' (Some 1)) = Some (map Some (map errorString (contents ?h ?es)))"
    using joinedError_Error_heap_frame [OF h1 h2] by blast
  from fr have "arrays h' 2 = [''b'', ''a'']" by simp
  moreover from uw have "Unwrap (load h' (Some 1))
      = Some [Some (errorString ''b''), Some (errorString ''a'')]"
    unfolding c by simp
  ultimately show ?thesis using h1 h2 r by blast
qed

section \<open>Properties of the combinators\<close>

lemma OrCompose_from_all_fail:
  "list_all2 (fails_with s t) hs ms \<Longrightarrow>
   OrCompose_from acc hs s t = Inr (Inl (AggregatedError (acc @ map (\<lambda>m. m @ [newline]) ms)))"
proof (induction hs ms arbitrary: acc rule: list_all2_induct)
  case Nil
  then show ?case by simp
next
  case (Cons h m hs ms)
  then show ?case by (auto simp: fails_with_def split: sum.splits)
qed

text \<open>
  Claim C5. When every hook of an OR-compose fails on an input, the \<open>i\<close>-th with an error
  whose message is the \<open>i\<close>-th entry of \<open>ms\<close>, the composite returns one error, and its
  message is the entries of \<open>ms\<close> in declaration order, each followed by a line break, and
  nothing else: no count in front and no reordering.
\<close>

theorem OrCompose_all_fail:
  "list_all2 (fails_with s t) hs ms \<Longrightarrow>
   (\<exists>agg. OrCompose hs s t = Inr (Inl agg)
      \<and> Error agg = Inr (concat (map (\<lambda>m. m @ [newline]) ms)))"
  by (simp add: OrCompose_def OrCompose_from_all_fail AggregatedError_def)

theorem OrCompose_all_fail_witness:
  "list_all2
     (fails_with \<lparr>src_category = (), src_value = ''''\<rparr> \<lparr>tgt_category = (), tgt_placeholder = ''''\<rparr>)
     [\<lambda>s t. Inl (errorString ''f2 error''), \<lambda>s t. Inl (errorString ''f1 error'')]
     [''f2 error'', ''f1 error'']
   \<and> (\<exists>agg. OrCompose [\<lambda>s t. Inl (errorString ''f2 error''), \<lambda>s t. Inl (errorString ''f1 error'')]
         \<lparr>src_category = (), src_value = ''''\<rparr> \<lparr>tgt_category = (), tgt_placeholder = ''''\<rparr>
           = Inr (Inl agg)
       \<and> Error agg = Inr (''f2 error'' @ [newline] @ ''f1 error'' @ [newline]))"
  using OrCompose_all_fail [of "\<lparr>src_category = (), src_value = ''''\<rparr>"
      "\<lparr>tgt_category = (), tgt_placeholder = ''''\<rparr>"
      "[\<lambda>s t. Inl (errorString ''f2 error''), \<lambda>s t. Inl (errorString ''f1 error'')]"
      "[''f2 error'', ''f1 error'']"]
  by (simp add: fails_with_def)

text \<open>
  Claim C6. For the AND-compose of two hooks \<open>f\<close> and \<open>g\<close>: when \<open>f\<close> fails with the error
  \<open>e\<close>, the composite returns \<open>e\<close> and only \<open>f\<close> (position 0) has been invoked; when \<open>f\<close>
  succeeds with \<open>v\<close>, both are invoked in order and the result is that of \<open>g\<close> on \<open>v\<close>,
  reclassified as the new source, with the same target.
\<close>

theorem AndCompose_pair:
  "(f s t = Inl e \<longrightarrow> AndCompose classify [f, g] s t = ([0], Inl e))
   \<and> (f s t = Inr v \<longrightarrow>
        AndCompose classify [f, g] s t
          = ([0, 1], g \<lparr>src_category = classify v, src_value = v\<rparr> t))"
  by (auto simp: AndCompose_def split: sum.splits)

theorem AndCompose_pair_witness:
  "(\<lambda>s t. Inl (errorString ''foo'')) \<lparr>src_category = (), src_value = ''''\<rparr>
       \<lparr>tgt_category = (), tgt_placeholder = ''''\<rparr> = Inl (errorString ''foo'')
   \<and> AndCompose (\<lambda>v. ()) [\<lambda>s t. Inl (errorString ''foo''), \<lambda>s t. Inr ''NOPE'']
       \<lparr>src_category = (), src_value = ''''\<rparr> \<lparr>tgt_category = (), tgt_placeholder = ''''\<rparr>
       = ([0], Inl (errorString ''foo''))
   \<and> (\<lambda>s t. Inr (src_value s @ ''foo'')) \<lparr>src_category = (), src_value = ''''\<rparr>
       \<lparr>tgt_category = (), tgt_placeholder = ''''\<rparr> = Inr ''foo''
   \<and> AndCompose (\<lambda>v. ()) [\<lambda>s t. Inr (src_value s @ ''foo''), \<lambda>s t. Inr (src_value s @ ''bar'')]
       \<lparr>src_category = (), src_value = ''''\<rparr> \<lparr>tgt_category = (), tgt_placeholder = ''''\<rparr>
       = ([0, 1], Inr ''foobar'')"
  using AndCompose_pair [of "\<lambda>s t. Inl (errorString ''foo'')"
      "\<lparr>src_category = (), src_value = ''''\<rparr>" "\<lparr>tgt_category = (), tgt_placeholder = ''''\<rparr>"
      "errorString ''foo''" "\<lambda>v. ()" "\<lambda>s t. Inr ''NOPE''" "''''"]
    AndCompose_pair [of "\<lambda>s t. Inr (src_value s @ ''foo'')"
      "\<lparr>src_category = (), src_value = ''''\<rparr>" "\<lparr>tgt_category = (), tgt_placeholder = ''''\<rparr>"
      "errorString ''foo''" "\<lambda>v. ()" "\<lambda>s t. Inr (src_value s @ ''bar'')" "''foo''"]
  by simp

end
